theory Spec2Isabelle
  imports Main
begin

section \<open>Values, errors and events\<close>

text \<open>
  The values an argument map carries: strings, numbers, booleans, null and undefined.
  \<open>JNum n\<close> stands for the Number \<open>n\<close>, an integer of magnitude below \<open>2^53\<close>; these are
  the integers a Number holds exactly and prints digit for digit. Other numbers
  (fractions, larger magnitudes), arrays and nested objects are not part of the model.
  An object is the list of its enumerable properties in \<^verbatim>\<open>for ... in\<close> order.
\<close>

datatype jsval = JStr string | JNum int | JBool bool | JNull | JUndefined

type_synonym obj = "(string \<times> jsval) list"

text \<open>
  A thrown value or rejection reason is an error object: \<open>Error m\<close> is
  \<^verbatim>\<open>new Error(m)\<close>; \<open>TypeError\<close> is what the engine throws when a property of \<^verbatim>\<open>null\<close> or
  \<^verbatim>\<open>undefined\<close> is read (its message is the engine's own).
\<close>

datatype js_error = Error string | TypeError

definition digit :: "nat \<Rightarrow> char" where
  "digit d = ''0123456789'' ! d"

function decimal :: "nat \<Rightarrow> string" where
  "decimal n = (if n < 10 then [digit n] else decimal (n div 10) @ [digit (n mod 10)])"
  by pat_completeness auto
termination
  by (relation "measure id") auto

declare decimal.simps [simp del]

text \<open>
  \<^verbatim>\<open>v.toString()\<close>: a method call on the value, so it throws on null and undefined. The
  digits of a number are those of \<^verbatim>\<open>Number.prototype.toString\<close> only within the bound
  \<open>coercible\<close> states below; every statement about a number carries that bound.
\<close>

fun toString :: "jsval \<Rightarrow> js_error + string" where
  "toString (JStr s) = Inr s"
| "toString (JNum n) = Inr (if n < 0 then ''-'' @ decimal (nat (- n)) else decimal (nat n))"
| "toString (JBool b) = Inr (if b then ''true'' else ''false'')"
| "toString JNull = Inl TypeError"
| "toString JUndefined = Inl TypeError"

text \<open>
  The values on which \<open>toString\<close> above is the engine's: strings, booleans, and integers
  of magnitude below \<open>2^53\<close>, which print in plain decimal.
\<close>

fun coercible :: "jsval \<Rightarrow> bool" where
  "coercible (JStr s) = True"
| "coercible (JNum n) = (\<bar>n\<bar> < 2 ^ 53)"
| "coercible (JBool b) = True"
| "coercible JNull = False"
| "coercible JUndefined = False"

text \<open>The payload of the finished event is one result or an array of results.\<close>

datatype 'r payload = One 'r | Many "'r list"

datatype 'r event = TxsSubmitted int | TxsFinished "'r payload"

text \<open>
  \<^verbatim>\<open>_onTxsSubmitted\<close> and \<^verbatim>\<open>_onTxsFinished\<close> raise the event on the connector's own channel;
  the channel is the list of the events raised so far.
\<close>

definition onTxsSubmitted :: "int \<Rightarrow> 'r event list \<Rightarrow> 'r event list" where
  "onTxsSubmitted count channel = channel @ [TxsSubmitted count]"

definition onTxsFinished :: "'r payload \<Rightarrow> 'r event list \<Rightarrow> 'r event list" where
  "onTxsFinished txResults channel = channel @ [TxsFinished txResults]"

section \<open>The base connector\<close>

record BlockchainConnector =
  workerIndex :: int
  bcType :: string

datatype invoke_data = Single obj | Batch "obj list"

text \<open>
  \<^verbatim>\<open>result[i] = v\<close> on a JavaScript array: an index past the end extends the array, leaving
  holes (\<open>None\<close>) in between.
\<close>

definition array_assign :: "'a option list \<Rightarrow> nat \<Rightarrow> 'a \<Rightarrow> 'a option list" where
  "array_assign xs i v =
     (if i < length xs then xs[i := Some v]
      else xs @ replicate (i - length xs) None @ [Some v])"

function prepareWorkerArguments_loop :: "int \<Rightarrow> int \<Rightarrow> obj option list \<Rightarrow> obj option list" where
  "prepareWorkerArguments_loop number i result =
     (if i < number
      then prepareWorkerArguments_loop number (i + 1) (array_assign result (nat i) [])
      else result)"
  by pat_completeness auto
termination
  by (relation "measure (\<lambda>(number, i, result). nat (number - i))") auto

declare prepareWorkerArguments_loop.simps [simp del]

definition prepareWorkerArguments :: "int \<Rightarrow> js_error + obj option list" where
  "prepareWorkerArguments number = Inr (prepareWorkerArguments_loop number 0 [])"

text \<open>
  The public methods of the class, as requests with their arguments, and what the class
  itself does on each. A method that throws rejects the promise it returns (\<open>Inl\<close>).
\<close>

datatype request =
    GetType
  | GetWorkerIndex
  | Init bool
  | InstallSmartContract
  | PrepareWorkerArguments int
  | GetContext int obj
  | ReleaseContext
  | InvokeSmartContract string string invoke_data int
  | QuerySmartContract string string invoke_data int
  | QueryState string string string string

datatype reply = TypeName string | Index int | WorkerArguments "obj option list"

fun operationName :: "request \<Rightarrow> string" where
  "operationName GetType = ''getType''"
| "operationName GetWorkerIndex = ''getWorkerIndex''"
| "operationName (Init workerInit) = ''init''"
| "operationName InstallSmartContract = ''installSmartContract''"
| "operationName (PrepareWorkerArguments number) = ''prepareWorkerArguments''"
| "operationName (GetContext roundIndex args) = ''getContext''"
| "operationName ReleaseContext = ''releaseContext''"
| "operationName (InvokeSmartContract contractID contractVer args timeout) = ''invokeSmartContract''"
| "operationName (QuerySmartContract contractID contractVer args timeout) = ''querySmartContract''"
| "operationName (QueryState contractID contractVer k fcn) = ''queryState''"

fun BlockchainConnector_call :: "BlockchainConnector \<Rightarrow> request \<Rightarrow> js_error + reply" where
  "BlockchainConnector_call this GetType = Inr (TypeName (bcType this))"
| "BlockchainConnector_call this GetWorkerIndex = Inr (Index (workerIndex this))"
| "BlockchainConnector_call this (Init workerInit) =
     Inl (Error ''init is not implemented for this blockchain connector'')"
| "BlockchainConnector_call this InstallSmartContract =
     Inl (Error ''installSmartContract is not implemented for this blockchain connector'')"
| "BlockchainConnector_call this (PrepareWorkerArguments number) =
     map_sum id WorkerArguments (prepareWorkerArguments number)"
| "BlockchainConnector_call this (GetContext roundIndex args) =
     Inl (Error ''getContext is not implemented for this blockchain connector'')"
| "BlockchainConnector_call this ReleaseContext =
     Inl (Error ''releaseContext is not implemented for this blockchain connector'')"
| "BlockchainConnector_call this (InvokeSmartContract contractID contractVer args timeout) =
     Inl (Error ''invokeSmartContract is not implemented for this blockchain connector'')"
| "BlockchainConnector_call this (QuerySmartContract contractID contractVer args timeout) =
     Inl (Error ''querySmartContract is not implemented for this blockchain connector'')"
| "BlockchainConnector_call this (QueryState contractID contractVer k fcn) =
     Inl (Error ''queryState is not implemented for this blockchain connector'')"

section \<open>The FISCO BCOS connector\<close>

text \<open>
  The settings are what the constructor read from the network configuration; they are
  opaque here. \<open>currentContext\<close> is the field \<^verbatim>\<open>this.context\<close>: \<open>None\<close> is
  \<^verbatim>\<open>undefined\<close>, \<open>Some a\<close> the object at address \<open>a\<close> of the heap.
\<close>

record 'cfg FiscoBcosConnector = BlockchainConnector +
  workspaceRoot :: string
  fiscoBcosSettings :: 'cfg
  clientIdx :: int
  currentContext :: "nat option"

text \<open>
  The heap holds the objects allocated so far; an object's address is its position.
  \<^verbatim>\<open>{}\<close> allocates a new object at the first free address.
\<close>

type_synonym heap = "obj list"

definition getContext ::
  "heap \<Rightarrow> 'cfg FiscoBcosConnector \<Rightarrow> int \<Rightarrow> obj \<Rightarrow> heap \<times> 'cfg FiscoBcosConnector \<times> (js_error + nat)" where
  "getContext h this roundIndex args =
     (h @ [[]], this\<lparr>currentContext := Some (length h)\<rparr>, Inr (length h))"

definition releaseContext ::
  "heap \<Rightarrow> 'cfg FiscoBcosConnector \<Rightarrow> heap \<times> 'cfg FiscoBcosConnector \<times> (js_error + unit)" where
  "releaseContext h this = (h, this\<lparr>currentContext := None\<rparr>, Inr ())"

subsection \<open>Promises\<close>

text \<open>
  How the promise of an underlying call settles. The order in which the calls of a batch
  settle is a schedule: the list of their indices in settling order. A call whose index
  the schedule leaves out never settles.
\<close>

datatype 'r settlement =
    is_Fulfils: Fulfils (fulfilment: 'r)
  | is_Rejects: Rejects (rejection: js_error)

text \<open>
  \<^verbatim>\<open>Promise.all\<close>: each fulfilment stores its value at the promise's own index; the
  combined promise fulfils once every index holds a value, and rejects with the reason of
  the first promise to reject. The reaction of a promise runs once. The first component
  of the result lists the promises that had settled when the combined promise did; the
  second is \<open>None\<close> when the combined promise never settles.
\<close>

fun await_all ::
  "'r settlement list \<Rightarrow> nat list \<Rightarrow> 'r option list \<Rightarrow> nat list \<Rightarrow> nat list \<times> (js_error + 'r list) option" where
  "await_all ps [] vals settled = (settled, None)"
| "await_all ps (i # sched) vals settled =
     (if i < length ps \<and> i < length vals \<and> vals ! i = None then
        (case ps ! i of
           Rejects reason \<Rightarrow> (settled @ [i], Some (Inl reason))
         | Fulfils v \<Rightarrow>
             (case those (vals[i := Some v]) of
                Some results \<Rightarrow> (settled @ [i], Some (Inr results))
              | None \<Rightarrow> await_all ps sched (vals[i := Some v]) (settled @ [i])))
      else await_all ps sched vals settled)"

definition Promise_all ::
  "'r settlement list \<Rightarrow> nat list \<Rightarrow> nat list \<times> (js_error + 'r list) option" where
  "Promise_all ps sched =
     (if ps = [] then ([], Some (Inr []))
      else await_all ps sched (replicate (length ps) None) [])"

subsection \<open>Operations\<close>

text \<open>
  What a call of the connector did by the time the promise it returned settled: the events
  raised, the errors logged (the message's prefix and the error whose stack or rendering
  follows it), and how the promise settled (\<open>None\<close>: it never does). For a batch,
  \<open>settledCalls\<close> are the underlying calls that had settled by then, in settling order.
  The one strategy call that \<^verbatim>\<open>installSmartContract\<close> and \<^verbatim>\<open>queryState\<close> await is taken to
  settle.
\<close>

record ('r, 'a) outcome =
  events :: "'r event list"
  logged :: "(string \<times> js_error) list"
  returned :: "(js_error + 'a) option"

record ('r, 'a) batch_outcome = "('r, 'a) outcome" +
  settledCalls :: "nat list"

definition installSmartContract ::
  "('cfg \<Rightarrow> string \<Rightarrow> unit settlement) \<Rightarrow> 'cfg FiscoBcosConnector \<Rightarrow> ('r, unit) outcome" where
  "installSmartContract installSmartContractImpl this =
     (case installSmartContractImpl (fiscoBcosSettings this) (workspaceRoot this) of
        Fulfils u \<Rightarrow> \<lparr>events = [], logged = [], returned = Some (Inr ())\<rparr>
      | Rejects error \<Rightarrow>
          \<lparr>events = [],
           logged = [(''FISCO BCOS smart contract install failed'', error)],
           returned = Some (Inl error)\<rparr>)"

text \<open>
  The fourth argument of the invoke strategy is the array of positional arguments from
  \<^verbatim>\<open>invokeSmartContract\<close> and the bare key from \<^verbatim>\<open>queryState\<close>; its last is the read-only
  flag, which \<^verbatim>\<open>invokeSmartContract\<close> leaves out (\<open>False\<close>).
\<close>

datatype call_args = ArgList "string list" | ArgKey string

type_synonym ('cfg, 'r) invoke_impl =
  "'cfg \<Rightarrow> string \<Rightarrow> string option \<Rightarrow> call_args \<Rightarrow> string \<Rightarrow> bool \<Rightarrow> 'r settlement"

text \<open>The loop over the keys of one argument map.\<close>

fun normalize :: "obj \<Rightarrow> string option \<Rightarrow> string list \<Rightarrow> js_error + string option \<times> string list" where
  "normalize [] fcn fcArgs = Inr (fcn, fcArgs)"
| "normalize ((k, v) # rest) fcn fcArgs =
     (if k = ''transaction_type''
      then (case toString v of
              Inl e \<Rightarrow> Inl e
            | Inr s \<Rightarrow> normalize rest (Some s) fcArgs)
      else (case toString v of
              Inl e \<Rightarrow> Inl e
            | Inr s \<Rightarrow> normalize rest fcn (fcArgs @ [s])))"

text \<open>
  The body of \<^verbatim>\<open>invocations.forEach\<close>: an exception leaves the loop at once, with the events
  raised and the calls issued so far.
\<close>

fun forEach_invocation ::
  "('cfg, 'r) invoke_impl \<Rightarrow> 'cfg FiscoBcosConnector \<Rightarrow> string \<Rightarrow> obj list \<Rightarrow>
   'r event list \<Rightarrow> 'r settlement list \<Rightarrow> js_error option \<times> 'r event list \<times> 'r settlement list" where
  "forEach_invocation run this contractID [] channel promises = (None, channel, promises)"
| "forEach_invocation run this contractID (arg # rest) channel promises =
     (case normalize arg None [] of
        Inl e \<Rightarrow> (Some e, channel, promises)
      | Inr (fcn, fcArgs) \<Rightarrow>
          forEach_invocation run this contractID rest
            (onTxsSubmitted 1 channel)
            (promises @ [run (fiscoBcosSettings this) contractID fcn (ArgList fcArgs)
                           (workspaceRoot this) False]))"

text \<open>The call the loop issues for one argument map, when its normalization does not throw.\<close>

definition underlyingCall ::
  "('cfg, 'r) invoke_impl \<Rightarrow> 'cfg FiscoBcosConnector \<Rightarrow> string \<Rightarrow> obj \<Rightarrow> js_error + 'r settlement" where
  "underlyingCall run this contractID arg =
     (case normalize arg None [] of
        Inl e \<Rightarrow> Inl e
      | Inr (fcn, fcArgs) \<Rightarrow>
          Inr (run (fiscoBcosSettings this) contractID fcn (ArgList fcArgs) (workspaceRoot this) False))"

definition invocations_of :: "invoke_data \<Rightarrow> obj list" where
  "invocations_of invokeData = (case invokeData of Single arg \<Rightarrow> [arg] | Batch args \<Rightarrow> args)"

definition invokeSmartContract ::
  "('cfg, 'r) invoke_impl \<Rightarrow> nat list \<Rightarrow> 'cfg FiscoBcosConnector \<Rightarrow>
   string \<Rightarrow> string \<Rightarrow> invoke_data \<Rightarrow> int \<Rightarrow> ('r, 'r list) batch_outcome" where
  "invokeSmartContract run sched this contractID contractVer invokeData timeout =
     (case forEach_invocation run this contractID (invocations_of invokeData) [] [] of
        (Some error, channel, promises) \<Rightarrow>
          \<lparr>events = channel,
           logged = [(''FISCO BCOS smart contract invoke failed'', error)],
           returned = Some (Inl error), settledCalls = []\<rparr>
      | (None, channel, promises) \<Rightarrow>
          (case Promise_all promises sched of
             (settled, None) \<Rightarrow>
               \<lparr>events = channel, logged = [], returned = None, settledCalls = settled\<rparr>
           | (settled, Some (Inr results)) \<Rightarrow>
               \<lparr>events = onTxsFinished (Many results) channel, logged = [],
                returned = Some (Inr results), settledCalls = settled\<rparr>
           | (settled, Some (Inl error)) \<Rightarrow>
               \<lparr>events = channel,
                logged = [(''FISCO BCOS smart contract invoke failed'', error)],
                returned = Some (Inl error), settledCalls = settled\<rparr>))"

definition queryState ::
  "('cfg, 'r) invoke_impl \<Rightarrow> 'cfg FiscoBcosConnector \<Rightarrow>
   string \<Rightarrow> string \<Rightarrow> string \<Rightarrow> string \<Rightarrow> ('r, 'r) outcome" where
  "queryState run this contractID contractVer k fcn =
     (case run (fiscoBcosSettings this) contractID (Some fcn) (ArgKey k) (workspaceRoot this) True of
        Fulfils result \<Rightarrow>
          \<lparr>events = onTxsFinished (One result) (onTxsSubmitted 1 []), logged = [],
           returned = Some (Inr result)\<rparr>
      | Rejects error \<Rightarrow>
          \<lparr>events = onTxsSubmitted 1 [],
           logged = [(''FISCO BCOS smart contract query failed'', error)],
           returned = Some (Inl error)\<rparr>)"

section \<open>Example inputs\<close>

text \<open>
  A worker's connector before its first round, and an invoke strategy that rejects the
  function \<^verbatim>\<open>fail\<close> (and a call without a function name) and otherwise fulfils with a
  receipt echoing the function, the arguments and the read-only flag it was given.
\<close>

definition example_connector :: "unit FiscoBcosConnector" where
  "example_connector =
     \<lparr>workerIndex = 0, bcType = ''fisco-bcos'', workspaceRoot = ''/bench'',
      fiscoBcosSettings = (), clientIdx = 0, currentContext = None\<rparr>"

definition example_run :: "(unit, string \<times> call_args \<times> bool) invoke_impl" where
  "example_run settings contractID fcn fcArgs root readOnly =
     (case fcn of
        None \<Rightarrow> Rejects (Error ''no function name'')
      | Some f \<Rightarrow> if f = ''fail'' then Rejects (Error ''reverted'') else Fulfils (f, fcArgs, readOnly))"

section \<open>Auxiliary lemmas\<close>

lemmas example_simps =
  example_connector_def example_run_def invokeSmartContract_def invocations_of_def
  Promise_all_def onTxsSubmitted_def onTxsFinished_def underlyingCall_def queryState_def

subsection \<open>The combined promise\<close>

lemma those_eq_Some: "those xs = Some ys \<longleftrightarrow> xs = map Some ys"
  by (induction xs arbitrary: ys) (auto split: option.splits)

lemma those_None_if: "i < length xs \<Longrightarrow> xs ! i = None \<Longrightarrow> those xs = None"
proof (cases "those xs")
  case None then show ?thesis by simp
next
  case (Some ys)
  assume "i < length xs" "xs ! i = None"
  with Some show ?thesis by (simp add: those_eq_Some)
qed

lemma await_all_aligned:
  "await_all ps sched vals settled = (d, Some (Inr rs)) \<Longrightarrow>
   length vals = length ps \<Longrightarrow>
   (\<And>i v. i < length ps \<Longrightarrow> vals ! i = Some v \<Longrightarrow> ps ! i = Fulfils v) \<Longrightarrow>
   length rs = length ps \<and> (\<forall>i < length ps. ps ! i = Fulfils (rs ! i))"
proof (induction sched arbitrary: vals settled)
  case Nil
  then show ?case by simp
next
  case (Cons i sched)
  show ?case
  proof (cases "i < length ps \<and> i < length vals \<and> vals ! i = None")
    case False
    with Cons.prems(1) have "await_all ps sched vals settled = (d, Some (Inr rs))"
      by auto
    from Cons.IH [OF this Cons.prems(2) Cons.prems(3)] show ?thesis by simp
  next
    case True
    show ?thesis
    proof (cases "ps ! i")
      case (Rejects reason)
      with True Cons.prems(1) show ?thesis by simp
    next
      case (Fulfils v)
      let ?vals = "vals[i := Some v]"
      have len: "length ?vals = length ps" using Cons.prems(2) by simp
      have inv: "\<And>j w. j < length ps \<Longrightarrow> ?vals ! j = Some w \<Longrightarrow> ps ! j = Fulfils w"
        using Cons.prems(2,3) Fulfils True by (auto simp: nth_list_update split: if_splits)
      show ?thesis
      proof (cases "those ?vals")
        case None
        with True Fulfils Cons.prems(1)
        have "await_all ps sched ?vals (settled @ [i]) = (d, Some (Inr rs))" by simp
        from Cons.IH [OF this len inv] show ?thesis by simp
      next
        case (Some results)
        with True Fulfils Cons.prems(1) have rs: "results = rs" by simp
        from Some rs have eq: "?vals = map Some rs" by (simp add: those_eq_Some)
        then have "length rs = length ps" using len by (metis length_map)
        moreover have "\<forall>j < length ps. ps ! j = Fulfils (rs ! j)"
        proof (intro allI impI)
          fix j assume j: "j < length ps"
          then have "?vals ! j = Some (rs ! j)" using eq \<open>length rs = length ps\<close> by simp
          then show "ps ! j = Fulfils (rs ! j)" using inv j by blast
        qed
        ultimately show ?thesis by simp
      qed
    qed
  qed
qed

lemma await_all_fulfils:
  "those vals = None \<Longrightarrow> length vals = length ps \<Longrightarrow>
   (\<And>i. i < length ps \<Longrightarrow> \<exists>v. ps ! i = Fulfils v) \<Longrightarrow>
   {i. i < length ps \<and> vals ! i = None} \<subseteq> set sched \<Longrightarrow>
   \<exists>d rs. await_all ps sched vals settled = (d, Some (Inr rs))"
proof (induction sched arbitrary: vals settled)
  case Nil
  then have "\<forall>i < length vals. vals ! i \<noteq> None" by auto
  then have "vals = map Some (map the vals)"
    by (auto simp: list_eq_iff_nth_eq)
  then have "those vals = Some (map the vals)" using those_eq_Some by blast
  with Nil.prems(1) show ?case by simp
next
  case (Cons i sched)
  show ?case
  proof (cases "i < length ps \<and> i < length vals \<and> vals ! i = None")
    case False
    then have "{j. j < length ps \<and> vals ! j = None} \<subseteq> set sched"
      using Cons.prems(2,4) by auto
    from Cons.IH [OF Cons.prems(1,2,3) this] False show ?thesis by auto
  next
    case True
    then obtain v where v: "ps ! i = Fulfils v" using Cons.prems(3) by blast
    let ?vals = "vals[i := Some v]"
    show ?thesis
    proof (cases "those ?vals")
      case (Some results)
      with True v show ?thesis by simp
    next
      case None
      have "{j. j < length ps \<and> ?vals ! j = None} \<subseteq> set sched"
      proof
        fix j assume "j \<in> {j. j < length ps \<and> ?vals ! j = None}"
        then have j: "j < length ps" "?vals ! j = None" by auto
        with True have ne: "j \<noteq> i" by auto
        with j have "vals ! j = None" by simp
        with j Cons.prems(4) have "j \<in> set (i # sched)" by blast
        with ne show "j \<in> set sched" by simp
      qed
      from Cons.IH [OF None _ Cons.prems(3) this, of "settled @ [i]"] Cons.prems(2) True v None
      show ?thesis by simp
    qed
  qed
qed

lemma await_all_rejects:
  "length vals = length ps \<Longrightarrow> j < length ps \<Longrightarrow> ps ! j = Rejects e \<Longrightarrow> vals ! j = None \<Longrightarrow>
   distinct pre \<Longrightarrow> j \<notin> set pre \<Longrightarrow>
   (\<And>i. i \<in> set pre \<Longrightarrow> i < length ps \<and> vals ! i = None \<and> is_Fulfils (ps ! i)) \<Longrightarrow>
   await_all ps (pre @ j # post) vals settled = (settled @ pre @ [j], Some (Inl e))"
proof (induction pre arbitrary: vals settled)
  case Nil
  then show ?case by simp
next
  case (Cons i pre)
  from Cons.prems(7) [of i] have i: "i < length ps" "vals ! i = None" "is_Fulfils (ps ! i)"
    by simp_all
  then obtain v where v: "ps ! i = Fulfils v" by (cases "ps ! i") simp_all
  let ?vals = "vals[i := Some v]"
  have ne: "j \<noteq> i" using Cons.prems(6) by auto
  have jn: "?vals ! j = None" using ne Cons.prems(4) by simp
  have "those ?vals = None"
    using those_None_if [of j ?vals] jn Cons.prems(1,2) by simp
  then have step: "await_all ps ((i # pre) @ j # post) vals settled =
      await_all ps (pre @ j # post) ?vals (settled @ [i])"
    using i v Cons.prems(1) by simp
  have rest: "\<And>k. k \<in> set pre \<Longrightarrow> k < length ps \<and> ?vals ! k = None \<and> is_Fulfils (ps ! k)"
  proof -
    fix k assume k: "k \<in> set pre"
    with Cons.prems(5) have "k \<noteq> i" by auto
    with Cons.prems(7) [of k] k show "k < length ps \<and> ?vals ! k = None \<and> is_Fulfils (ps ! k)"
      by simp
  qed
  have "await_all ps (pre @ j # post) ?vals (settled @ [i]) =
      ((settled @ [i]) @ pre @ [j], Some (Inl e))"
    using Cons.IH [of ?vals "settled @ [i]"] Cons.prems(1,2,3,5,6) jn rest by simp
  with step show ?case by simp
qed

lemma forEach_issued:
  "map (underlyingCall run this contractID) args = map Inr ps \<Longrightarrow>
   forEach_invocation run this contractID args channel promises =
     (None, channel @ replicate (length args) (TxsSubmitted 1), promises @ ps)"
proof (induction args arbitrary: ps channel promises)
  case Nil
  then show ?case by simp
next
  case (Cons arg args)
  from Cons.prems obtain p ps' where ps: "ps = p # ps'"
    and p: "underlyingCall run this contractID arg = Inr p"
    and rest: "map (underlyingCall run this contractID) args = map Inr ps'"
    by (cases ps) auto
  from p obtain fcn fcArgs where n: "normalize arg None [] = Inr (fcn, fcArgs)"
    and r: "p = run (fiscoBcosSettings this) contractID fcn (ArgList fcArgs) (workspaceRoot this) False"
    by (auto simp: underlyingCall_def split: sum.splits)
  show ?case
    using Cons.IH [OF rest] n r ps
    by (simp add: onTxsSubmitted_def replicate_append_same)
qed

lemma first_rejection:
  assumes "\<exists>i \<in> set sched. is_Rejects (ps ! i)"
  shows "\<exists>j post. sched = takeWhile (\<lambda>i. is_Fulfils (ps ! i)) sched @ j # post \<and>
     is_Rejects (ps ! j) \<and> j = sched ! length (takeWhile (\<lambda>i. is_Fulfils (ps ! i)) sched)"
proof -
  let ?P = "\<lambda>i. is_Fulfils (ps ! i)"
  from assms have "dropWhile ?P sched \<noteq> []"
    by (auto simp: dropWhile_eq_Nil_conv settlement.disc_eq_case split: settlement.splits)
  then obtain j post where d: "dropWhile ?P sched = j # post" by (cases "dropWhile ?P sched") auto
  then have "\<not> ?P j" by (metis hd_dropWhile list.sel(1) list.distinct(1))
  then have rj: "is_Rejects (ps ! j)" by (cases "ps ! j") auto
  have s: "sched = takeWhile ?P sched @ j # post" using d by (metis takeWhile_dropWhile_id)
  then have "sched ! length (takeWhile ?P sched) = j" by (metis nth_append_length)
  with s rj show ?thesis by blast
qed

subsection \<open>Normalization and the default loop\<close>

lemma toString_coercible:
  "v \<noteq> JNull \<Longrightarrow> v \<noteq> JUndefined \<Longrightarrow> \<exists>s. toString v = Inr s"
  by (cases v) simp_all

lemma normalize_acc:
  "distinct (map fst m) \<Longrightarrow> (\<And>v. v \<in> snd ` set m \<Longrightarrow> v \<noteq> JNull \<and> v \<noteq> JUndefined) \<Longrightarrow>
   normalize m fcn fcArgs =
     Inr (case map_of m ''transaction_type'' of
            None \<Rightarrow> fcn
          | Some v \<Rightarrow> Some (projr (toString v)),
          fcArgs @ map (\<lambda>kv. projr (toString (snd kv)))
                     (filter (\<lambda>kv. fst kv \<noteq> ''transaction_type'') m))"
proof (induction m arbitrary: fcn fcArgs)
  case Nil
  show ?case by simp
next
  case (Cons kv m)
  obtain k v where kv: "kv = (k, v)" by (cases kv)
  have "v \<noteq> JNull" "v \<noteq> JUndefined"
    using Cons.prems(2) [of v] kv by simp_all
  then obtain s where s: "toString v = Inr s"
    using toString_coercible by blast
  have d: "distinct (map fst m)" using Cons.prems(1) by simp
  have c: "\<And>w. w \<in> snd ` set m \<Longrightarrow> w \<noteq> JNull \<and> w \<noteq> JUndefined"
    using Cons.prems(2) by simp
  show ?case
  proof (cases "k = ''transaction_type''")
    case True
    then have "''transaction_type'' \<notin> fst ` set m" using Cons.prems(1) kv by auto
    then have none: "map_of m ''transaction_type'' = None" by (simp add: map_of_eq_None_iff)
    have "normalize (kv # m) fcn fcArgs = normalize m (Some s) fcArgs"
      by (simp add: kv True s)
    also have "\<dots> = Inr (Some s,
        fcArgs @ map (\<lambda>kv. projr (toString (snd kv))) (filter (\<lambda>kv. fst kv \<noteq> ''transaction_type'') m))"
      using Cons.IH [OF d c, of "Some s" fcArgs] none by simp
    finally show ?thesis by (simp add: kv True s)
  next
    case False
    have "normalize (kv # m) fcn fcArgs = normalize m fcn (fcArgs @ [s])"
      by (simp add: kv False s)
    also have "\<dots> = Inr (case map_of m ''transaction_type'' of None \<Rightarrow> fcn
          | Some v \<Rightarrow> Some (projr (toString v)),
        (fcArgs @ [s]) @ map (\<lambda>kv. projr (toString (snd kv)))
           (filter (\<lambda>kv. fst kv \<noteq> ''transaction_type'') m))"
      using Cons.IH [OF d c, of fcn "fcArgs @ [s]"] by simp
    finally show ?thesis using False by (auto simp: kv s)
  qed
qed

lemma prepareWorkerArguments_loop_appends:
  "0 \<le> i \<Longrightarrow> length result = nat i \<Longrightarrow>
   prepareWorkerArguments_loop number i result = result @ replicate (nat (number - i)) (Some [])"
proof (induction number i result rule: prepareWorkerArguments_loop.induct)
  case (1 number i result)
  show ?case
  proof (cases "i < number")
    case False
    then show ?thesis by (simp add: prepareWorkerArguments_loop.simps [of number i result])
  next
    case True
    have a: "array_assign result (nat i) [] = result @ [Some []]"
      using "1.prems" by (simp add: array_assign_def)
    have l: "length (result @ [Some []]) = nat (i + 1)" using "1.prems" by simp
    have "prepareWorkerArguments_loop number i result =
        prepareWorkerArguments_loop number (i + 1) (result @ [Some []])"
      using True a by (simp add: prepareWorkerArguments_loop.simps [of number i result])
    also have "\<dots> = (result @ [Some []]) @ replicate (nat (number - (i + 1))) (Some [])"
      using "1.IH" [OF True] "1.prems" a l by simp
    also have "\<dots> = result @ replicate (Suc (nat (number - (i + 1)))) (Some [])" by simp
    also have "Suc (nat (number - (i + 1))) = nat (number - i)" using True by simp
    finally show ?thesis .
  qed
qed

section \<open>The claims\<close>

subsection \<open>C1: a batch with a rejecting call\<close>

text \<open>
  C1, as the code has it. Take a batch each of whose elements is dispatched (\<open>ps\<close> are
  the settlements of the underlying calls, index by index) and in which at least one call
  rejects, every call settling once, in the order \<open>sched\<close>. Then the connector raises
  one \<open>TxsSubmitted 1\<close> per element and no \<open>TxsFinished\<close> at all; it logs the failure and
  the promise it returned rejects with the reason of the first call to reject in settling
  order, unchanged, at the moment that call settles: the calls settled by then are the
  ones up to it in the schedule, the others are still pending.
\<close>

theorem invokeSmartContract_rejecting_batch:
  fixes run :: "('cfg, 'r) invoke_impl"
  assumes issued: "map (underlyingCall run this contractID) (invocations_of invokeData) = map Inr ps"
    and sched: "distinct sched" "set sched = {..<length ps}"
    and rejects: "\<exists>p \<in> set ps. is_Rejects p"
  shows "let k = length (takeWhile (\<lambda>i. is_Fulfils (ps ! i)) sched); first = sched ! k in
     invokeSmartContract run sched this contractID contractVer invokeData timeout =
       \<lparr>events = replicate (length ps) (TxsSubmitted 1),
        logged = [(''FISCO BCOS smart contract invoke failed'', rejection (ps ! first))],
        returned = Some (Inl (rejection (ps ! first))),
        settledCalls = take (Suc k) sched\<rparr>"
proof -
  let ?pre = "takeWhile (\<lambda>i. is_Fulfils (ps ! i)) sched"
  let ?n = "length ps"
  have len: "length (invocations_of invokeData) = ?n"
    using issued by (metis length_map)
  have loop: "forEach_invocation run this contractID (invocations_of invokeData) [] [] =
      (None, replicate ?n (TxsSubmitted 1), ps)"
    using forEach_issued [OF issued, of "[]" "[]"] len by simp
  from rejects obtain i where "i < ?n" "is_Rejects (ps ! i)"
    by (auto simp: in_set_conv_nth)
  with sched(2) have "\<exists>i \<in> set sched. is_Rejects (ps ! i)" by auto
  from first_rejection [OF this] obtain j post where
    split: "sched = ?pre @ j # post" and rj: "is_Rejects (ps ! j)" and j: "j = sched ! length ?pre"
    by blast
  have jn: "j < ?n" using split sched(2)
    by (metis in_set_conv_decomp lessThan_iff)
  have je: "ps ! j = Rejects (rejection (ps ! j))" using rj by simp
  have dpre: "distinct ?pre" using sched(1) by simp
  have jpre: "j \<notin> set ?pre" using sched(1) split
    by (metis distinct_append disjoint_iff list.set_intros(1) not_distinct_conv_prefix)
  have pre: "\<And>i. i \<in> set ?pre \<Longrightarrow>
      i < ?n \<and> replicate ?n (None :: 'r option) ! i = None \<and> is_Fulfils (ps ! i)"
  proof -
    fix i assume i: "i \<in> set ?pre"
    then have "i \<in> set sched" by (metis set_takeWhileD)
    with sched(2) have "i < ?n" by simp
    moreover from i have "is_Fulfils (ps ! i)" by (metis set_takeWhileD)
    ultimately show "i < ?n \<and> replicate ?n (None :: 'r option) ! i = None \<and> is_Fulfils (ps ! i)"
      by simp
  qed
  have "await_all ps (?pre @ j # post) (replicate ?n None) [] =
      ([] @ ?pre @ [j], Some (Inl (rejection (ps ! j))))"
    using await_all_rejects [of "replicate ?n None" ps j "rejection (ps ! j)" ?pre post "[]"]
      jn je dpre jpre pre by simp
  with split have run_all: "await_all ps sched (replicate ?n None) [] =
      (?pre @ [j], Some (Inl (rejection (ps ! j))))" by simp
  have ne: "ps \<noteq> []" using rejects by auto
  have tk: "take (Suc (length ?pre)) sched = ?pre @ [j]"
    using split by (metis append.assoc append_Cons append_Nil append_eq_conv_conj length_append_singleton)
  show ?thesis
    using loop run_all ne tk j
    by (simp add: invokeSmartContract_def Promise_all_def Let_def)
qed

text \<open>
  A three-element batch whose second call rejects and settles last: the promise rejects
  after all three have settled, and still no \<open>TxsFinished\<close> is raised.
\<close>

theorem invokeSmartContract_rejecting_batch_witness:
  "(\<exists>p \<in> set [Fulfils (''open'', ArgList [''A''], False), Rejects (Error ''reverted''),
        Fulfils (''open'', ArgList [''C''], False)]. is_Rejects p) \<and>
   invokeSmartContract example_run [0, 2, 1] example_connector ''transfer'' ''v1''
     (Batch [[(''transaction_type'', JStr ''open''), (''account'', JStr ''A'')],
             [(''transaction_type'', JStr ''fail''), (''account'', JStr ''B'')],
             [(''transaction_type'', JStr ''open''), (''account'', JStr ''C'')]]) 30 =
   \<lparr>events = [TxsSubmitted 1, TxsSubmitted 1, TxsSubmitted 1],
    logged = [(''FISCO BCOS smart contract invoke failed'', Error ''reverted'')],
    returned = Some (Inl (Error ''reverted'')),
    settledCalls = [0, 2, 1]\<rparr>"
proof -
  let ?ps = "[Fulfils (''open'', ArgList [''A''], False), Rejects (Error ''reverted''),
        Fulfils (''open'', ArgList [''C''], False)]"
  let ?data = "Batch [[(''transaction_type'', JStr ''open''), (''account'', JStr ''A'')],
             [(''transaction_type'', JStr ''fail''), (''account'', JStr ''B'')],
             [(''transaction_type'', JStr ''open''), (''account'', JStr ''C'')]]"
  have issued: "map (underlyingCall example_run example_connector ''transfer'') (invocations_of ?data) =
      map Inr ?ps"
    by (simp add: example_simps)
  have d: "distinct [0, 2, 1::nat]" by simp
  have s: "set [0, 2, 1::nat] = {..<length ?ps}" by auto
  have r: "\<exists>p \<in> set ?ps. is_Rejects p" by simp
  show ?thesis
    using invokeSmartContract_rejecting_batch [OF issued d s r, of "''v1''" 30] r
    by (simp add: Let_def)
qed

text \<open>
  C1 as worded fails: in the same batch with the second call settling first, no
  \<open>TxsFinished\<close> event is raised, and the returned promise rejects when only that call has
  settled.
\<close>

theorem invokeSmartContract_fail_fast_counterexample:
  "invokeSmartContract example_run [1, 0, 2] example_connector ''transfer'' ''v1''
     (Batch [[(''transaction_type'', JStr ''open''), (''account'', JStr ''A'')],
             [(''transaction_type'', JStr ''fail''), (''account'', JStr ''B'')],
             [(''transaction_type'', JStr ''open''), (''account'', JStr ''C'')]]) 30 =
   \<lparr>events = [TxsSubmitted 1, TxsSubmitted 1, TxsSubmitted 1],
    logged = [(''FISCO BCOS smart contract invoke failed'', Error ''reverted'')],
    returned = Some (Inl (Error ''reverted'')),
    settledCalls = [1]\<rparr>"
  by (simp add: example_simps)

subsection \<open>C2: the events of a batch whose calls all fulfil\<close>

text \<open>
  C2, as the code has it. Take a batch of size \<open>n\<close> (a single argument map counting as
  a batch of size 1) whose \<open>n\<close> underlying calls are all issued and fulfil, call \<open>i\<close>
  with \<open>results ! i\<close>, every call settling in any order \<open>sched\<close>. Then \<open>n\<close> events
  \<open>TxsSubmitted 1\<close> are raised, followed by one \<open>TxsFinished\<close> whose result list is
  \<open>results\<close>: of length \<open>n\<close> and aligned with the batch index by index, whatever the
  order of completion. The promise fulfils with the same list.
\<close>

theorem invokeSmartContract_fulfilled_batch:
  fixes run :: "('cfg, 'r) invoke_impl"
  assumes issued: "map (underlyingCall run this contractID) (invocations_of invokeData) =
      map (Inr \<circ> Fulfils) results"
    and sched: "{..<length results} \<subseteq> set sched"
  shows "events (invokeSmartContract run sched this contractID contractVer invokeData timeout) =
       replicate (length (invocations_of invokeData)) (TxsSubmitted 1) @ [TxsFinished (Many results)] \<and>
     returned (invokeSmartContract run sched this contractID contractVer invokeData timeout) =
       Some (Inr results) \<and>
     logged (invokeSmartContract run sched this contractID contractVer invokeData timeout) = [] \<and>
     length results = length (invocations_of invokeData)"
proof -
  let ?ps = "map Fulfils results"
  let ?n = "length results"
  have len: "length (invocations_of invokeData) = ?n"
    using issued by (metis length_map)
  have issued': "map (underlyingCall run this contractID) (invocations_of invokeData) = map Inr ?ps"
    using issued by simp
  have loop: "forEach_invocation run this contractID (invocations_of invokeData) [] [] =
      (None, replicate ?n (TxsSubmitted 1), ?ps)"
    using forEach_issued [OF issued', of "[]" "[]"] len by simp
  have "\<exists>d. Promise_all ?ps sched = (d, Some (Inr results))"
  proof (cases "results = []")
    case True
    then show ?thesis by (simp add: Promise_all_def)
  next
    case False
    let ?vals = "replicate ?n (None :: 'r option)"
    have t: "those ?vals = None"
      using those_None_if [of 0 ?vals] False by simp
    have f: "\<And>i. i < length ?ps \<Longrightarrow> \<exists>v. ?ps ! i = Fulfils v" by simp
    have c: "{i. i < length ?ps \<and> ?vals ! i = None} \<subseteq> set sched" using sched by auto
    from await_all_fulfils [OF t _ f c, of "[]"] obtain d rs
      where a: "await_all ?ps sched ?vals [] = (d, Some (Inr rs))" by auto
    have inv: "\<And>i v. i < length ?ps \<Longrightarrow> ?vals ! i = Some v \<Longrightarrow> ?ps ! i = Fulfils v" by simp
    from await_all_aligned [OF a _ inv]
    have "length rs = length ?ps" "\<forall>i < length ?ps. ?ps ! i = Fulfils (rs ! i)" by simp_all
    then have "rs = results" by (auto intro: nth_equalityI)
    with a False show ?thesis by (simp add: Promise_all_def)
  qed
  then obtain d where "Promise_all ?ps sched = (d, Some (Inr results))" ..
  with loop len show ?thesis
    by (simp add: invokeSmartContract_def onTxsFinished_def)
qed

text \<open>
  A batch of two whose second call completes first: the results keep the order of the
  batch.
\<close>

theorem invokeSmartContract_fulfilled_batch_witness:
  "{..<length [(''open'', ArgList [''A''], False), (''close'', ArgList [''B'', ''7''], False)]} \<subseteq> set [1, 0] \<and>
   events (invokeSmartContract example_run [1, 0] example_connector ''transfer'' ''v1''
     (Batch [[(''transaction_type'', JStr ''open''), (''account'', JStr ''A'')],
             [(''account'', JStr ''B''), (''transaction_type'', JStr ''close''), (''amount'', JNum 7)]]) 30) =
   [TxsSubmitted 1, TxsSubmitted 1,
    TxsFinished (Many [(''open'', ArgList [''A''], False), (''close'', ArgList [''B'', ''7''], False)])]"
proof -
  let ?results = "[(''open'', ArgList [''A''], False), (''close'', ArgList [''B'', ''7''], False)]"
  let ?data = "Batch [[(''transaction_type'', JStr ''open''), (''account'', JStr ''A'')],
             [(''account'', JStr ''B''), (''transaction_type'', JStr ''close''), (''amount'', JNum 7)]]"
  have issued: "map (underlyingCall example_run example_connector ''transfer'') (invocations_of ?data) =
      map (Inr \<circ> Fulfils) ?results"
    by (simp add: example_simps decimal.simps digit_def)
  have s: "{..<length ?results} \<subseteq> set [1, 0]" by auto
  show ?thesis
    using invokeSmartContract_fulfilled_batch [OF issued s, of "''v1''" 30] s
    by (simp add: invocations_of_def)
qed

text \<open>
  C2 as worded fails for a batch whose call rejects: a single argument map is submitted,
  and no \<open>TxsFinished\<close> event follows.
\<close>

theorem invokeSmartContract_no_finished_counterexample:
  "events (invokeSmartContract example_run [0] example_connector ''transfer'' ''v1''
     (Single [(''transaction_type'', JStr ''fail''), (''account'', JStr ''B'')]) 30) =
   [TxsSubmitted 1]"
  by (simp add: example_simps)

subsection \<open>C3: argument normalization\<close>

text \<open>
  C3, as the code has it. For every argument map (its keys distinct, as the properties of
  an object are) whose values are strings, booleans or integers of magnitude below
  \<open>2^53\<close>, so that none is null or undefined, the normalization takes the
  \<^verbatim>\<open>toString()\<close> of the value under \<^verbatim>\<open>transaction_type\<close> as the function name, and the
  \<^verbatim>\<open>toString()\<close> of every other value, in enumeration order, as the positional arguments;
  these are what the underlying call receives. A map without the key leaves the function
  name null.
\<close>

theorem normalize_coercible:
  assumes keys: "distinct (map fst arg)"
    and vals: "\<forall>v \<in> snd ` set arg. coercible v"
  shows "normalize arg None [] =
       Inr (map_option (\<lambda>v. projr (toString v)) (map_of arg ''transaction_type''),
            map (\<lambda>kv. projr (toString (snd kv))) (filter (\<lambda>kv. fst kv \<noteq> ''transaction_type'') arg)) \<and>
     underlyingCall run this contractID arg =
       Inr (run (fiscoBcosSettings this) contractID
              (map_option (\<lambda>v. projr (toString v)) (map_of arg ''transaction_type''))
              (ArgList (map (\<lambda>kv. projr (toString (snd kv)))
                 (filter (\<lambda>kv. fst kv \<noteq> ''transaction_type'') arg)))
              (workspaceRoot this) False) \<and>
     (''transaction_type'' \<notin> fst ` set arg \<longrightarrow> (\<exists>fcArgs. normalize arg None [] = Inr (None, fcArgs)))"
proof -
  have nonnull: "\<And>v. v \<in> snd ` set arg \<Longrightarrow> v \<noteq> JNull \<and> v \<noteq> JUndefined"
  proof -
    fix v assume "v \<in> snd ` set arg"
    with vals have "coercible v" by blast
    then show "v \<noteq> JNull \<and> v \<noteq> JUndefined" by (cases v) simp_all
  qed
  have n: "normalize arg None [] =
       Inr (map_option (\<lambda>v. projr (toString v)) (map_of arg ''transaction_type''),
            map (\<lambda>kv. projr (toString (snd kv))) (filter (\<lambda>kv. fst kv \<noteq> ''transaction_type'') arg))"
    using normalize_acc [OF keys nonnull, of None "[]"]
    by (cases "map_of arg ''transaction_type''") simp_all
  moreover have "''transaction_type'' \<notin> fst ` set arg \<Longrightarrow> map_of arg ''transaction_type'' = None"
    by (simp add: map_of_eq_None_iff)
  ultimately show ?thesis by (simp add: underlyingCall_def)
qed

text \<open>
  The map of the specification, and a map without \<^verbatim>\<open>transaction_type\<close> holding a
  negative number, both booleans, and the largest and the smallest number within the
  bound.
\<close>

theorem normalize_coercible_witness:
  "distinct (map fst [(''transaction_type'', JStr ''transferFunds''), (''to'', JStr ''X''), (''amount'', JStr ''10'')]) \<and>
   normalize [(''transaction_type'', JStr ''transferFunds''), (''to'', JStr ''X''), (''amount'', JStr ''10'')] None [] =
     Inr (Some ''transferFunds'', [''X'', ''10'']) \<and>
   normalize [(''to'', JStr ''X''), (''amount'', JNum (- 42)), (''urgent'', JBool True),
              (''dryRun'', JBool False), (''limit'', JNum 9007199254740991),
              (''floor'', JNum (- 9007199254740991)), (''retries'', JNum 0)] None [] =
     Inr (None, [''X'', ''-42'', ''true'', ''false'', ''9007199254740991'',
                 ''-9007199254740991'', ''0''])"
proof -
  let ?a = "[(''transaction_type'', JStr ''transferFunds''), (''to'', JStr ''X''), (''amount'', JStr ''10'')]"
  let ?b = "[(''to'', JStr ''X''), (''amount'', JNum (- 42)), (''urgent'', JBool True),
              (''dryRun'', JBool False), (''limit'', JNum 9007199254740991),
              (''floor'', JNum (- 9007199254740991)), (''retries'', JNum 0)]"
  have da: "distinct (map fst ?a)" by simp
  have va: "\<forall>v \<in> snd ` set ?a. coercible v" by simp
  have db: "distinct (map fst ?b)" by simp
  have vb: "\<forall>v \<in> snd ` set ?b. coercible v" by simp
  have digits: "decimal 42 = ''42''" "decimal 9007199254740991 = ''9007199254740991''"
    "decimal 0 = ''0''"
    by (simp_all add: decimal.simps digit_def)
  show ?thesis
    using normalize_coercible [OF da va] normalize_coercible [OF db vb] da
    by (simp add: digits)
qed

text \<open>
  C3 as worded fails on a map holding null: \<^verbatim>\<open>null.toString()\<close> throws, so the
  normalization yields neither a function name nor arguments.
\<close>

theorem normalize_null_counterexample:
  "normalize [(''transaction_type'', JNull), (''to'', JStr ''X''), (''amount'', JStr ''10'')] None [] =
     Inl TypeError"
  by simp

subsection \<open>C4: the operations the base connector leaves unimplemented\<close>

text \<open>
  C4, as the code has it. The base connector fails on exactly seven of its methods:
  \<^verbatim>\<open>init\<close>, \<^verbatim>\<open>installSmartContract\<close>, \<^verbatim>\<open>getContext\<close>, \<^verbatim>\<open>releaseContext\<close>,
  \<^verbatim>\<open>invokeSmartContract\<close>, \<^verbatim>\<open>querySmartContract\<close> and \<^verbatim>\<open>queryState\<close>. Each of them, when
  called, fails with an \<^verbatim>\<open>Error\<close> whose message is the name of that operation followed
  by \<^verbatim>\<open> is not implemented for this blockchain connector\<close>.
\<close>

theorem base_connector_unimplemented:
  "(isl (BlockchainConnector_call this req) \<longleftrightarrow>
      operationName req \<in> set [''init'', ''installSmartContract'', ''getContext'', ''releaseContext'',
        ''invokeSmartContract'', ''querySmartContract'', ''queryState'']) \<and>
   (isl (BlockchainConnector_call this req) \<longrightarrow>
      BlockchainConnector_call this req =
        Inl (Error (operationName req @ '' is not implemented for this blockchain connector'')))"
  by (cases req) (simp_all add: prepareWorkerArguments_def)

text \<open>
  \<^verbatim>\<open>getContext\<close> on a base connector.
\<close>

theorem base_connector_unimplemented_witness:
  "isl (BlockchainConnector_call \<lparr>workerIndex = 0, bcType = ''fisco-bcos''\<rparr> (GetContext 0 [])) \<and>
   BlockchainConnector_call \<lparr>workerIndex = 0, bcType = ''fisco-bcos''\<rparr> (GetContext 0 []) =
     Inl (Error ''getContext is not implemented for this blockchain connector'')"
  using base_connector_unimplemented [of "\<lparr>workerIndex = 0, bcType = ''fisco-bcos''\<rparr>" "GetContext 0 []"]
  by simp

text \<open>
  C4 as worded fails: the base connector has no nine methods that fail when called.
\<close>

theorem base_connector_nine_counterexample:
  "\<not> (\<exists>names. distinct names \<and> length names = 9 \<and>
        (\<forall>nm \<in> set names. \<exists>this req. operationName req = nm \<and> isl (BlockchainConnector_call this req)))"
proof
  assume "\<exists>names. distinct names \<and> length names = 9 \<and>
        (\<forall>nm \<in> set names. \<exists>this req. operationName req = nm \<and> isl (BlockchainConnector_call this req))"
  then obtain names where d: "distinct names" and l: "length names = 9"
    and f: "\<forall>nm \<in> set names. \<exists>this req. operationName req = nm \<and> isl (BlockchainConnector_call this req)"
    by blast
  let ?seven = "[''init'', ''installSmartContract'', ''getContext'', ''releaseContext'',
        ''invokeSmartContract'', ''querySmartContract'', ''queryState'']"
  have "set names \<subseteq> set ?seven"
  proof
    fix nm assume "nm \<in> set names"
    with f obtain this req where n: "operationName req = nm" and i: "isl (BlockchainConnector_call this req)"
      by blast
    from i have "operationName req \<in> set ?seven"
      by (cases req) (simp_all add: prepareWorkerArguments_def)
    with n show "nm \<in> set ?seven" by simp
  qed
  then have "card (set names) \<le> card (set ?seven)" by (rule card_mono [OF finite_set])
  also have "\<dots> \<le> length ?seven" by (rule card_length)
  finally have "card (set names) \<le> 7" by simp
  moreover have "card (set names) = 9" using d l by (simp add: distinct_card)
  ultimately show False by simp
qed

subsection \<open>C5: queryState against a single-element invoke\<close>

text \<open>
  C5, as the code has it. \<^verbatim>\<open>queryState(contractID, version, key, fcn)\<close> and the
  single-element \<^verbatim>\<open>invokeSmartContract\<close> call with the key folded into the argument map
  each raise one \<open>TxsSubmitted 1\<close>, followed by one \<open>TxsFinished\<close> when the underlying call
  fulfils and by none when it rejects. They differ in the call and in the payload:
  \<^verbatim>\<open>queryState\<close> issues a read-only call with the bare key and hands its bare result to
  \<open>TxsFinished\<close>; \<^verbatim>\<open>invokeSmartContract\<close> issues a call with the one-element argument list
  and no read-only flag, and hands over a one-element list.
\<close>

theorem queryState_and_invoke_events:
  assumes "name \<noteq> ''transaction_type''"
  shows "events (queryState run this contractID contractVer k fcn) =
       TxsSubmitted 1 #
         (case run (fiscoBcosSettings this) contractID (Some fcn) (ArgKey k) (workspaceRoot this) True of
            Fulfils result \<Rightarrow> [TxsFinished (One result)]
          | Rejects error \<Rightarrow> []) \<and>
     events (invokeSmartContract run [0] this contractID contractVer
               (Single [(''transaction_type'', JStr fcn), (name, JStr k)]) timeout) =
       TxsSubmitted 1 #
         (case run (fiscoBcosSettings this) contractID (Some fcn) (ArgList [k]) (workspaceRoot this) False of
            Fulfils result \<Rightarrow> [TxsFinished (Many [result])]
          | Rejects error \<Rightarrow> [])"
  using assms
  by (simp add: queryState_def invokeSmartContract_def invocations_of_def Promise_all_def
      onTxsSubmitted_def onTxsFinished_def split: settlement.splits)

text \<open>
  A lookup of key \<^verbatim>\<open>k1\<close> through function \<^verbatim>\<open>get\<close>, both ways.
\<close>

theorem queryState_and_invoke_events_witness:
  "events (queryState example_run example_connector ''store'' ''v1'' ''k1'' ''get'') =
     [TxsSubmitted 1, TxsFinished (One (''get'', ArgKey ''k1'', True))] \<and>
   events (invokeSmartContract example_run [0] example_connector ''store'' ''v1''
             (Single [(''transaction_type'', JStr ''get''), (''key'', JStr ''k1'')]) 30) =
     [TxsSubmitted 1, TxsFinished (Many [(''get'', ArgList [''k1''], False)])]"
  using queryState_and_invoke_events [of "''key''" example_run example_connector "''store''" "''v1''" "''k1''" "''get''" 30]
  by (simp add: example_connector_def example_run_def)

text \<open>
  C5 as worded fails even when the strategy answers both calls alike: the payloads differ
  in shape.
\<close>

theorem queryState_payload_counterexample:
  "events (queryState (\<lambda>settings contractID fcn fcArgs root readOnly. Fulfils ''ok'')
             example_connector ''store'' ''v1'' ''k1'' ''get'') \<noteq>
   events (invokeSmartContract (\<lambda>settings contractID fcn fcArgs root readOnly. Fulfils ''ok'') [0]
             example_connector ''store'' ''v1''
             (Single [(''transaction_type'', JStr ''get''), (''key'', JStr ''k1'')]) 30)"
  by (simp add: example_simps)

subsection \<open>C6: the default worker arguments\<close>

text \<open>
  C6. For every \<open>workerCount \<ge> 0\<close>, the default \<^verbatim>\<open>prepareWorkerArguments\<close> fulfils with
  an array of exactly \<open>workerCount\<close> elements, each of them present and an empty mapping:
  one per worker index.
\<close>

theorem prepareWorkerArguments_empty_mappings:
  assumes "0 \<le> workerCount"
  shows "\<exists>result. prepareWorkerArguments workerCount = Inr result \<and>
     int (length result) = workerCount \<and> (\<forall>i < length result. result ! i = Some [])"
  using assms prepareWorkerArguments_loop_appends [of 0 "[]" workerCount]
  by (simp add: prepareWorkerArguments_def)

text \<open>
  Three workers.
\<close>

theorem prepareWorkerArguments_empty_mappings_witness:
  "(0::int) \<le> 3 \<and> prepareWorkerArguments 3 = Inr [Some [], Some [], Some []]"
proof -
  have h: "(0::int) \<le> 3" by simp
  from prepareWorkerArguments_empty_mappings [OF h] obtain result where
    r: "prepareWorkerArguments 3 = Inr result" and l: "int (length result) = 3"
    and e: "\<forall>i < length result. result ! i = Some []" by blast
  from l have "length result = 3" by simp
  with e have "result = [Some [], Some [], Some []]"
    by (auto simp: list_eq_iff_nth_eq less_Suc_eq numeral_3_eq_3)
  with r h show ?thesis by simp
qed

subsection \<open>C7: releasing the context\<close>

text \<open>
  C7. In every state of the connector, also one in which \<^verbatim>\<open>getContext\<close> was never
  called, \<^verbatim>\<open>releaseContext\<close> does not throw and clears the context; a \<^verbatim>\<open>getContext\<close>
  that follows succeeds and returns a context, which is empty and becomes the current
  one.
\<close>

theorem releaseContext_never_throws:
  "\<exists>this'. releaseContext h this = (h, this', Inr ()) \<and> currentContext this' = None \<and>
     (\<exists>h' this'' a. getContext h this' roundIndex args = (h', this'', Inr a) \<and>
        a < length h' \<and> h' ! a = [] \<and> currentContext this'' = Some a)"
  by (simp add: releaseContext_def getContext_def)

text \<open>
  A connector that never acquired a context.
\<close>

theorem releaseContext_never_throws_witness:
  "currentContext example_connector = None \<and>
   releaseContext [] example_connector = ([], example_connector, Inr ()) \<and>
   getContext [] example_connector 0 [] =
     ([[]], example_connector\<lparr>currentContext := Some 0\<rparr>, Inr 0)"
  using releaseContext_never_throws [of "[]" example_connector 0 "[]"]
  by (simp add: releaseContext_def getContext_def example_connector_def)

subsection \<open>C8: a failing install\<close>

text \<open>
  C8. When the install strategy fails with an error, \<^verbatim>\<open>installSmartContract\<close> logs the
  failure once and the promise it returned rejects with that very error, neither wrapped
  nor replaced; no event is raised.
\<close>

theorem installSmartContract_rethrows:
  assumes "installSmartContractImpl (fiscoBcosSettings this) (workspaceRoot this) = Rejects error"
  shows "installSmartContract installSmartContractImpl this =
     \<lparr>events = [],
      logged = [(''FISCO BCOS smart contract install failed'', error)],
      returned = Some (Inl error)\<rparr>"
  using assms by (simp add: installSmartContract_def)

text \<open>
  A deployment that fails.
\<close>

theorem installSmartContract_rethrows_witness:
  "installSmartContract (\<lambda>settings root. Rejects (Error ''deploy failed'')) example_connector =
     \<lparr>events = [] :: unit event list,
      logged = [(''FISCO BCOS smart contract install failed'', Error ''deploy failed'')],
      returned = Some (Inl (Error ''deploy failed''))\<rparr>"
  using installSmartContract_rethrows
    [of "\<lambda>settings root. Rejects (Error ''deploy failed'')" example_connector "Error ''deploy failed''"]
  by simp

subsection \<open>C9: the empty batch\<close>

text \<open>
  C9. \<^verbatim>\<open>invokeSmartContract\<close> on an empty array raises no \<open>TxsSubmitted\<close> event and
  exactly one \<open>TxsFinished\<close> event, carrying the empty result list, and fulfils with the
  empty list; nothing is logged.
\<close>

theorem invokeSmartContract_empty_batch:
  "invokeSmartContract run sched this contractID contractVer (Batch []) timeout =
     \<lparr>events = [TxsFinished (Many [])], logged = [], returned = Some (Inr []), settledCalls = []\<rparr>"
  by (simp add: invokeSmartContract_def invocations_of_def Promise_all_def onTxsFinished_def)

text \<open>
  The empty batch on the example connector.
\<close>

theorem invokeSmartContract_empty_batch_witness:
  "invokeSmartContract example_run [] example_connector ''transfer'' ''v1'' (Batch []) 30 =
     \<lparr>events = [TxsFinished (Many [])], logged = [], returned = Some (Inr []), settledCalls = []\<rparr>"
  using invokeSmartContract_empty_batch [of example_run "[]" example_connector "''transfer''" "''v1''" 30]
  by simp

subsection \<open>C10: the context does not depend on the inputs\<close>

text \<open>
  C10. \<^verbatim>\<open>getContext\<close> is a function of the connector alone: the round index and the
  worker arguments have no influence on what it returns. Each call returns a fresh
  object (at an address no earlier object has, the earlier objects untouched) that is
  empty, and makes it the current context; two calls in a row return two different
  objects with equal (empty) contents.
\<close>

theorem getContext_independent_of_inputs:
  "getContext h this roundIndex args = getContext h this roundIndex' args' \<and>
   (\<exists>h1 this1 a1 h2 this2 a2.
      getContext h this roundIndex args = (h1, this1, Inr a1) \<and>
      getContext h1 this1 roundIndex' args' = (h2, this2, Inr a2) \<and>
      \<not> a1 < length h \<and> \<not> a2 < length h1 \<and> a1 \<noteq> a2 \<and>
      take (length h) h1 = h \<and> take (length h1) h2 = h1 \<and>
      h1 ! a1 = [] \<and> h2 ! a2 = [] \<and> h2 ! a1 = h2 ! a2 \<and>
      currentContext this1 = Some a1 \<and> currentContext this2 = Some a2)"
  by (simp add: getContext_def nth_append)

text \<open>
  Two calls with different round indices and worker arguments.
\<close>

theorem getContext_independent_of_inputs_witness:
  "getContext [] example_connector 0 [] =
     getContext [] example_connector 7 [(''contractAddress'', JStr ''0xabc'')] \<and>
   getContext [] example_connector 0 [] =
     ([[]], example_connector\<lparr>currentContext := Some 0\<rparr>, Inr 0)"
  using getContext_independent_of_inputs
    [of "[]" example_connector 0 "[]" 7 "[(''contractAddress'', JStr ''0xabc'')]"]
  by (simp add: getContext_def)

end
